theory Spec2Isabelle
  imports Complex_Main
begin

section \<open>Text\<close>

text \<open>
  Python's \<open>str\<close> is modelled by \<open>string\<close>; a character stands for a code point below 256.
  The character classes are the ones Python's \<open>str.isspace\<close> and its \<open>re\<close> module
  (\<open>\s\<close>, \<open>\d\<close>, \<open>\w\<close> on \<open>str\<close> patterns) use on that range.
\<close>

definition is_space :: "char \<Rightarrow> bool" where
  "is_space c = (c \<in> set [CHR 0x09, CHR 0x0A, CHR 0x0B, CHR 0x0C, CHR 0x0D,
                            CHR 0x1C, CHR 0x1D, CHR 0x1E, CHR 0x1F, CHR '' '',
                            CHR 0x85, CHR 0xA0])"

definition is_digit :: "char \<Rightarrow> bool" where
  "is_digit c = (c \<in> set ''0123456789'')"

definition is_word :: "char \<Rightarrow> bool" where
  "is_word c = (let n = (of_char c :: nat) in
     (48 \<le> n \<and> n \<le> 57) \<or> (65 \<le> n \<and> n \<le> 90) \<or> n = 95 \<or> (97 \<le> n \<and> n \<le> 122) \<or>
     n \<in> set [170, 178, 179, 181, 185, 186, 188, 189, 190] \<or>
     (192 \<le> n \<and> n \<le> 214) \<or> (216 \<le> n \<and> n \<le> 246) \<or> 248 \<le> n)"

text \<open>\<open>s.strip()\<close>: whitespace removed at both ends.\<close>

definition strip :: "string \<Rightarrow> string" where
  "strip s = rev (dropWhile is_space (rev (dropWhile is_space s)))"

text \<open>\<open>s.startswith(w)\<close> and \<open>w in s\<close>.\<close>

definition starts_with :: "string \<Rightarrow> string \<Rightarrow> bool" where
  "starts_with w s = (take (length w) s = w)"

fun contains :: "string \<Rightarrow> string \<Rightarrow> bool" where
  "contains w [] = (w = [])"
| "contains w (x # xs) = (starts_with w (x # xs) \<or> contains w xs)"

text \<open>\<open>s.replace(old, new, 1)\<close>: the first occurrence of \<open>old\<close>, wherever it is, is replaced.\<close>

fun replace_first :: "string \<Rightarrow> string \<Rightarrow> string \<Rightarrow> string" where
  "replace_first old new [] = (if old = [] then new else [])"
| "replace_first old new (x # xs) =
     (if starts_with old (x # xs) then new @ drop (length old) (x # xs)
      else x # replace_first old new xs)"

text \<open>\<open>s.replace(old, new)\<close>: every occurrence, left to right, without overlap.\<close>

function replace_all :: "string \<Rightarrow> string \<Rightarrow> string \<Rightarrow> string" where
  "replace_all old new s =
     (if old = [] then new @ concat (map (\<lambda>c. c # new) s)
      else if s = [] then []
      else if starts_with old s then new @ replace_all old new (drop (length old) s)
      else hd s # replace_all old new (tl s))"
  by pat_completeness auto
termination
  by (relation "measure (\<lambda>(old, new, s). length s)") auto

declare replace_all.simps [simp del]

text \<open>\<open>s.split()\<close>: the maximal runs of characters that are not whitespace.\<close>

function py_split :: "string \<Rightarrow> string list" where
  "py_split s =
     (let t = dropWhile is_space s
      in if t = [] then []
         else takeWhile (\<lambda>c. \<not> is_space c) t # py_split (dropWhile (\<lambda>c. \<not> is_space c) t))"
  by pat_completeness auto
termination
proof (relation "measure length")
  show "wf (measure length)" by simp
next
  fix s t :: string
  assume t: "t = dropWhile is_space s" and ne: "t \<noteq> []"
  have "\<not> is_space (hd t)"
    using t ne hd_dropWhile by metis
  then have "length (dropWhile (\<lambda>c. \<not> is_space c) t) < length t"
    using ne by (cases t) (auto intro: le_imp_less_Suc length_dropWhile_le)
  also have "length t \<le> length s"
    using t by (simp add: length_dropWhile_le)
  finally show "(dropWhile (\<lambda>c. \<not> is_space c) t, s) \<in> measure length"
    by simp
qed

declare py_split.simps [simp del]

text \<open>\<open>s.split(sep)\<close> for a separator of one character: never an empty list.\<close>

fun split_on :: "char \<Rightarrow> string \<Rightarrow> string list" where
  "split_on sep [] = [[]]"
| "split_on sep (x # xs) =
     (if x = sep then [] # split_on sep xs
      else (case split_on sep xs of [] \<Rightarrow> [[x]] | t # ts \<Rightarrow> (x # t) # ts))"

text \<open>The value of a run of decimal digits, as \<open>pd.to_numeric\<close> reads it.\<close>

definition digit_val :: "char \<Rightarrow> nat" where
  "digit_val c = of_char c - 48"

definition nat_of_digits :: "string \<Rightarrow> nat" where
  "nat_of_digits ds = foldl (\<lambda>n c. 10 * n + digit_val c) 0 ds"

section \<open>Exceptions\<close>

datatype py_error = TypeError | AttributeError | KeyError string | IndexError | OtherError string

text \<open>\<open>xs[i]\<close>: an index below 0 counts from the end; outside the list an \<open>IndexError\<close>.\<close>

definition py_index :: "'a list \<Rightarrow> int \<Rightarrow> py_error + 'a" where
  "py_index xs i =
     (if 0 \<le> i \<and> i < int (length xs) then Inr (xs ! nat i)
      else if i < 0 \<and> - int (length xs) \<le> i then Inr (xs ! nat (int (length xs) + i))
      else Inl IndexError)"

text \<open>Sequencing of statements that may raise.\<close>

definition bind_err :: "py_error + 'a \<Rightarrow> ('a \<Rightarrow> py_error + 'b) \<Rightarrow> py_error + 'b" where
  "bind_err m f = (case m of Inl e \<Rightarrow> Inl e | Inr x \<Rightarrow> f x)"

text \<open>
  \<open>try: v = body  except E: v = fallback\<close>: only an exception of class \<open>E\<close> is caught.
\<close>

datatype exc_class = TypeError_class | AttributeError_class

fun is_instance :: "py_error \<Rightarrow> exc_class \<Rightarrow> bool" where
  "is_instance TypeError TypeError_class = True"
| "is_instance AttributeError AttributeError_class = True"
| "is_instance e cl = False"

definition try_except :: "py_error + 'a \<Rightarrow> exc_class \<Rightarrow> 'a \<Rightarrow> py_error + 'a" where
  "try_except body cl fallback =
     (case body of Inl e \<Rightarrow> if is_instance e cl then Inr fallback else Inl e | Inr v \<Rightarrow> Inr v)"

section \<open>Regular expressions\<close>

text \<open>
  The patterns of the module, matched the way Python's backtracking matcher does. A match
  state is the character before the position (for \<open>\b\<close>), the text still to read and the
  groups captured so far. \<open>ms r st\<close> lists the states in which \<open>r\<close> can end when started in
  \<open>st\<close>, in the matcher's order of preference: a greedy star lists longer repetitions
  first, a lazy one shorter ones first, an alternation its left branch first. A round of
  a star that reads nothing is not repeated; in the patterns of the module every round of
  a star reads at least one character.
\<close>

datatype atom = Ch char | Dot | Digit | Space

fun atom_ok :: "atom \<Rightarrow> char \<Rightarrow> bool" where
  "atom_ok (Ch a) c = (c = a)"
| "atom_ok Dot c = (c \<noteq> CHR 0x0A)"
| "atom_ok Digit c = is_digit c"
| "atom_ok Space c = is_space c"

datatype regex =
    Atom atom | Epsilon | Seq regex regex | Alt regex regex
  | Star bool regex | Group nat regex | Eos | WordB

type_synonym captures = "(nat \<times> string) list"
type_synonym mstate = "char option \<times> string \<times> captures"

definition word_before :: "char option \<Rightarrow> bool" where
  "word_before p = (case p of None \<Rightarrow> False | Some c \<Rightarrow> is_word c)"

definition word_after :: "string \<Rightarrow> bool" where
  "word_after s = (case s of [] \<Rightarrow> False | c # _ \<Rightarrow> is_word c)"

function ms :: "regex \<Rightarrow> mstate \<Rightarrow> mstate list" where
  "ms (Atom a) (p, s, c) =
     (case s of [] \<Rightarrow> [] | x # xs \<Rightarrow> if atom_ok a x then [(Some x, xs, c)] else [])"
| "ms Epsilon st = [st]"
| "ms (Seq r1 r2) st = concat (map (ms r2) (ms r1 st))"
| "ms (Alt r1 r2) st = ms r1 st @ ms r2 st"
| "ms (Star greedy r) (p, s, c) =
     (let more = concat (map (ms (Star greedy r))
                   (filter (\<lambda>st'. length (fst (snd st')) < length s) (ms r (p, s, c))))
      in if greedy then more @ [(p, s, c)] else (p, s, c) # more)"
| "ms (Group n r) (p, s, c) =
     map (\<lambda>(p', s', c'). (p', s', (n, take (length s - length s') s) # c')) (ms r (p, s, c))"
| "ms Eos (p, s, c) = (if s = [] \<or> s = [CHR 0x0A] then [(p, s, c)] else [])"
| "ms WordB (p, s, c) = (if word_before p \<noteq> word_after s then [(p, s, c)] else [])"
  by pat_completeness auto
termination
  by (relation "measures [\<lambda>(r, st). size r, \<lambda>(r, p, s, c). length s]") auto

text \<open>The equation of the star applies to its own right-hand side, so it is used on demand.\<close>

lemmas ms_Star = ms.simps(5)

declare ms.simps(5) [simp del]

text \<open>
  \<open>re.search\<close>: the start positions are tried from left to right; at each, the preferred
  match wins. The result is the groups of the match, \<open>None\<close> when no position matches.
\<close>

fun search_from :: "regex \<Rightarrow> char option \<Rightarrow> string \<Rightarrow> captures option" where
  "search_from r p [] = (case ms r (p, [], []) of [] \<Rightarrow> None | (_, _, c) # _ \<Rightarrow> Some c)"
| "search_from r p (x # xs) =
     (case ms r (p, x # xs, []) of [] \<Rightarrow> search_from r (Some x) xs | (_, _, c) # _ \<Rightarrow> Some c)"

definition re_search :: "regex \<Rightarrow> string \<Rightarrow> captures option" where
  "re_search r s = search_from r None s"

text \<open>
  \<open>series.str.extract(pat)[n - 1]\<close> on one cell: group \<open>n\<close> of the first match, missing
  (\<open>NaN\<close>) when the pattern does not match or the group took no part.
\<close>

definition str_extract :: "regex \<Rightarrow> nat \<Rightarrow> string \<Rightarrow> string option" where
  "str_extract r n s = (case re_search r s of None \<Rightarrow> None | Some c \<Rightarrow> map_of c n)"

text \<open>Pattern syntax: a literal text, \<open>r+\<close> and \<open>r+?\<close>, \<open>r?\<close>, \<open>r{n}\<close>, \<open>r{m,n}\<close>.\<close>

definition Lit :: "string \<Rightarrow> regex" where
  "Lit w = foldr (\<lambda>c r. Seq (Atom (Ch c)) r) w Epsilon"

definition Plus :: "bool \<Rightarrow> regex \<Rightarrow> regex" where
  "Plus greedy r = Seq r (Star greedy r)"

definition Opt :: "regex \<Rightarrow> regex" where
  "Opt r = Alt r Epsilon"

fun times :: "nat \<Rightarrow> regex \<Rightarrow> regex" where
  "times 0 r = Epsilon"
| "times (Suc n) r = Seq r (times n r)"

fun upto :: "nat \<Rightarrow> regex \<Rightarrow> regex" where
  "upto 0 r = Epsilon"
| "upto (Suc n) r = Opt (Seq r (upto n r))"

definition Rep :: "nat \<Rightarrow> nat \<Rightarrow> regex \<Rightarrow> regex" where
  "Rep m n r = Seq (times m r) (upto (n - m) r)"

text \<open>The character before the position once the text \<open>u\<close> has been read.\<close>

definition prev_after :: "char option \<Rightarrow> string \<Rightarrow> char option" where
  "prev_after p u = (if u = [] then p else Some (last u))"

section \<open>The book list parser: \<open>get_goodreads_user_books_by_page\<close>\<close>

text \<open>
  \<open>pd.read_html(url, attrs={'id': 'books'}, extract_links='body')\<close> gives every body cell
  as a pair of its text and its hyperlink target (\<open>None\<close> without a link). The ten columns
  the function selects make a raw row. The network request and the HTML table reader are
  a parameter \<open>read_html\<close> of the model: user and page number to the rows of the table, or
  the exception raised.
\<close>

type_synonym cell = "string \<times> string option"

record raw_row =
  title_cell :: cell
  author_cell :: cell
  pages_cell :: cell
  rating_cell :: cell
  ratings_cell :: cell
  pub_cell :: cell
  rating_1_cell :: cell
  votes_cell :: cell
  started_cell :: cell
  read_cell :: cell

text \<open>
  A parsed row, under the column names the function leaves: \<open>rating\<close>, \<open>ratings\<close>,
  \<open>rating.1\<close>, \<open>started\<close>, \<open>read\<close> and \<open>votes\<close> are renamed to \<open>avg_goodreads_rating\<close>,
  \<open>total_goodreads_ratings\<close>, \<open>user_rating\<close>, \<open>date_read\<close>, \<open>date_added\<close> and \<open>read?\<close>
  (\<open>read_flag\<close> here). \<open>None\<close> is pandas' missing value. The average rating is held as
  the exact value of the decimal text.
\<close>

record 'd book =
  title :: string
  author :: string
  pages :: "nat option"
  avg_goodreads_rating :: "rat option"
  total_goodreads_ratings :: "nat option"
  pub :: "nat option"
  user_rating :: "nat option"
  read_flag :: bool
  date_read :: "'d option"
  date_added :: "'d option"
  goodreads_id :: "string option"

text \<open>\<open>(\d+)\<close>, \<open>(\d+\.\d+)\<close> and \<open>(?:\b\d{1,2},\s)?(\d{1,4})\b\<close>.\<close>

definition digits_re :: regex where
  "digits_re = Group 1 (Plus True (Atom Digit))"

definition decimal_re :: regex where
  "decimal_re = Group 1 (Seq (Plus True (Atom Digit))
                          (Seq (Atom (Ch CHR ''.'')) (Plus True (Atom Digit))))"

definition pub_re :: regex where
  "pub_re = Seq (Opt (Seq WordB (Seq (Rep 1 2 (Atom Digit))
                   (Seq (Atom (Ch CHR '','')) (Atom Space)))))
              (Seq (Group 1 (Rep 1 4 (Atom Digit))) WordB)"

text \<open>\<open>(.+?)\'s rating\s*(.*?)$\<close>, \<open>date read\s*(.*)\<close> and \<open>date added\s*(.*)\<close>.\<close>

definition rating_re :: regex where
  "rating_re = Seq (Group 1 (Plus False (Atom Dot)))
                (Seq (Lit '''s rating'')
                (Seq (Star True (Atom Space))
                (Seq (Group 2 (Star False (Atom Dot))) Eos)))"

text \<open>
  The rating pattern with its literal text as a parameter, and the part of it that
  follows the first group.
\<close>

definition tail_like :: "string \<Rightarrow> regex" where
  "tail_like w = Seq (Lit w) (Seq (Star True (Atom Space))
                   (Seq (Group 2 (Star False (Atom Dot))) Eos))"

definition rating_like :: "string \<Rightarrow> regex" where
  "rating_like w = Seq (Group 1 (Plus False (Atom Dot))) (tail_like w)"

definition date_re :: "string \<Rightarrow> regex" where
  "date_re label = Seq (Lit label) (Seq (Star True (Atom Space)) (Group 1 (Star True (Atom Dot))))"


text \<open>
  \<open>pd.to_numeric(..., errors='coerce')\<close> on the group extracted by \<open>(\d+)\<close>, and on the
  one extracted by \<open>(\d+\.\d+)\<close>; a missing cell stays missing.
\<close>

definition to_numeric :: "string option \<Rightarrow> nat option" where
  "to_numeric v = map_option nat_of_digits v"

definition to_numeric_decimal :: "string option \<Rightarrow> rat option" where
  "to_numeric_decimal v =
     map_option (\<lambda>t. let ip = takeWhile is_digit t; fp = drop (Suc (length ip)) t
                      in of_nat (nat_of_digits ip) + of_nat (nat_of_digits fp) / 10 ^ length fp) v"

text \<open>
  \<open>user_books['title'].apply(lambda x: x.replace('title ', '', 1)).str.strip()\<close> and the
  same for the author, with \<open>' *'\<close> replaced after \<open>'author '\<close>.
\<close>

definition clean_title :: "string \<Rightarrow> string" where
  "clean_title x = strip (replace_first ''title '' [] x)"

definition clean_author :: "string \<Rightarrow> string" where
  "clean_author x = strip (replace_first '' *'' [] (replace_first ''author '' [] x))"

definition parse_pages :: "string \<Rightarrow> nat option" where
  "parse_pages x = to_numeric (str_extract digits_re 1 x)"

definition parse_avg_rating :: "string \<Rightarrow> rat option" where
  "parse_avg_rating x = to_numeric_decimal (str_extract decimal_re 1 x)"

definition parse_total_ratings :: "string \<Rightarrow> nat option" where
  "parse_total_ratings x = to_numeric (str_extract digits_re 1 (replace_all '','' [] x))"

definition parse_pub :: "string \<Rightarrow> nat option" where
  "parse_pub x = to_numeric (str_extract pub_re 1 (replace_first ''date pub '' [] x))"

text \<open>The user's rating: group 2 of the pattern, stripped, looked up in \<open>rating_mapping\<close>.\<close>

definition rating_mapping :: "(string \<times> nat) list" where
  "rating_mapping =
     [(''did not like it'', 1), (''it was ok'', 2), (''liked it'', 3),
      (''really liked it'', 4), (''it was amazing'', 5)]"

definition parse_user_rating :: "string \<Rightarrow> nat option" where
  "parse_user_rating x =
     (case map_option strip (str_extract rating_re 2 x) of
        None \<Rightarrow> None
      | Some t \<Rightarrow> map_of rating_mapping t)"

text \<open>
  \<open>format_date\<close>, on a value that may be missing: \<open>pd.NA\<close> for a missing value and for a
  text that contains \<open>not set\<close>, the day 1 inserted into a text of two tokens.
\<close>

definition format_date :: "string option \<Rightarrow> string option" where
  "format_date date_str =
     (case date_str of
        None \<Rightarrow> None
      | Some x \<Rightarrow>
          if contains ''not set'' x then None
          else let parts = py_split x
               in if length parts = 2 then Some (parts ! 0 @ '' 1, '' @ parts ! 1)
                  else Some x)"

text \<open>
  \<open>format_and_convert_date\<close> on one cell. \<open>insert_default_day\<close> is the function the source
  applies to every value of the series. \<open>pd.to_datetime(..., errors='coerce')\<close> is the
  parameter \<open>to_datetime\<close>, a text to its date or to missing (\<open>NaT\<close>); the date type is
  left open.
\<close>

definition insert_default_day :: "string option \<Rightarrow> string option" where
  "insert_default_day v =
     (case v of
        None \<Rightarrow> None
      | Some x \<Rightarrow>
          if length (py_split x) = 2 then Some (py_split x ! 0 @ '' 1, '' @ py_split x ! 1)
          else Some x)"

definition format_and_convert_date ::
    "(string \<Rightarrow> 'd option) \<Rightarrow> regex \<Rightarrow> string \<Rightarrow> 'd option" where
  "format_and_convert_date to_datetime date_pattern x =
     (let series = str_extract date_pattern 1 x;
          series = (if series = Some ''not set'' then None else series);
          series = insert_default_day series
      in case series of None \<Rightarrow> None | Some t \<Rightarrow> to_datetime t)"

text \<open>
  The \<open>votes\<close> column: \<open>pd.to_numeric\<close> of the first run of digits, then \<open>> 0\<close>. The
  comparison of a missing number with 0 is \<open>False\<close>.
\<close>

definition parse_read_flag :: "string \<Rightarrow> bool" where
  "parse_read_flag x =
     (case to_numeric (str_extract digits_re 1 x) of None \<Rightarrow> False | Some n \<Rightarrow> n > 0)"

text \<open>The identifier: the first run of digits of the title's hyperlink target.\<close>

definition extract_goodreads_id :: "string option \<Rightarrow> string option" where
  "extract_goodreads_id href =
     (case href of None \<Rightarrow> None | Some h \<Rightarrow> str_extract digits_re 1 h)"

definition parse_row :: "(string \<Rightarrow> 'd option) \<Rightarrow> raw_row \<Rightarrow> 'd book" where
  "parse_row to_datetime r =
     \<lparr> title = clean_title (fst (title_cell r)),
       author = clean_author (fst (author_cell r)),
       pages = parse_pages (fst (pages_cell r)),
       avg_goodreads_rating = parse_avg_rating (fst (rating_cell r)),
       total_goodreads_ratings = parse_total_ratings (fst (ratings_cell r)),
       pub = parse_pub (fst (pub_cell r)),
       user_rating = parse_user_rating (fst (rating_1_cell r)),
       read_flag = parse_read_flag (fst (votes_cell r)),
       date_read =
         format_and_convert_date to_datetime (date_re ''date read'') (fst (started_cell r)),
       date_added =
         format_and_convert_date to_datetime (date_re ''date added'') (fst (read_cell r)),
       goodreads_id = extract_goodreads_id (snd (title_cell r)) \<rparr>"

definition get_goodreads_user_books_by_page ::
    "(nat \<Rightarrow> nat \<Rightarrow> py_error + raw_row list) \<Rightarrow> (string \<Rightarrow> 'd option) \<Rightarrow> nat \<Rightarrow> nat
       \<Rightarrow> py_error + 'd book list" where
  "get_goodreads_user_books_by_page read_html to_datetime user page_num =
     (case read_html user page_num of
        Inl e \<Rightarrow> Inl e
      | Inr goodreads \<Rightarrow> Inr (map (parse_row to_datetime) goodreads))"

section \<open>The pagination driver: \<open>get_all_goodreads_user_books\<close>\<close>

text \<open>
  The \<open>while True\<close> loop has no bound of its own, so it is a partial function: \<open>None\<close>
  stands for a loop that never ends, \<open>Some (Inl e)\<close> for an exception raised by a page,
  \<open>Some (Inr books)\<close> for the table returned.
\<close>

partial_function (option) fetch_pages ::
    "(nat \<Rightarrow> py_error + 'b list) \<Rightarrow> nat \<Rightarrow> 'b list \<Rightarrow> (py_error + 'b list) option" where
  "fetch_pages by_page page_num all_books_df =
     (case by_page page_num of
        Inl e \<Rightarrow> Some (Inl e)
      | Inr books_on_page \<Rightarrow>
          if books_on_page = [] then Some (Inr all_books_df)
          else fetch_pages by_page (page_num + 1) (all_books_df @ books_on_page))"

definition get_all_goodreads_user_books ::
    "(nat \<Rightarrow> nat \<Rightarrow> py_error + raw_row list) \<Rightarrow> (string \<Rightarrow> 'd option) \<Rightarrow> nat
       \<Rightarrow> (py_error + 'd book list) option" where
  "get_all_goodreads_user_books read_html to_datetime user =
     fetch_pages (get_goodreads_user_books_by_page read_html to_datetime user) 1 []"

section \<open>The merger: \<open>combine_goodreads_and_hardcover\<close>\<close>







section \<open>The profile scraper: \<open>get_user_info\<close>\<close>

text \<open>
  The page as the function reads it: what \<open>soup.find\<close> returns for the canonical link, the
  title and the four \<open>meta\<close> elements (\<open>None\<close> when there is no such element, else the
  element's attributes, or its text for the title), and \<open>soup.text\<close>.
\<close>

type_synonym attrs = "(string \<times> string) list"

record soup =
  link_canonical :: "attrs option"
  title_tag :: "string option"
  soup_text :: string
  meta_og_title :: "attrs option"
  meta_first_name :: "attrs option"
  meta_last_name :: "attrs option"
  meta_username :: "attrs option"

record user_info =
  user_id :: string
  full_name :: string
  first_name :: string
  last_name :: string
  username :: string
  books_shelved :: string
  number_of_friends :: string
  books_read :: string
  currently_reading_count :: string
  to_read_count :: string

text \<open>
  \<open>soup.find(...)[key]\<close>: subscripting \<open>None\<close> raises \<open>TypeError\<close>; subscripting an element
  that lacks the attribute raises \<open>KeyError\<close>.
\<close>

definition tag_attr :: "attrs option \<Rightarrow> string \<Rightarrow> py_error + string" where
  "tag_attr tag key =
     (case tag of
        None \<Rightarrow> Inl TypeError
      | Some a \<Rightarrow> (case map_of a key of None \<Rightarrow> Inl (KeyError key) | Some v \<Rightarrow> Inr v))"

text \<open>\<open>soup.find('title').text\<close> and \<open>match.group(1)\<close>: on \<open>None\<close> an \<open>AttributeError\<close>.\<close>

definition attr_of_none :: "'a option \<Rightarrow> py_error + 'a" where
  "attr_of_none v = (case v of None \<Rightarrow> Inl AttributeError | Some x \<Rightarrow> Inr x)"

text \<open>
  \<open>(\d{1,3}(?:,\d{3})*|\d+)\<close>, and the five patterns built around it or around \<open>(\d+)\<close>.
\<close>

definition number_re :: regex where
  "number_re = Group 1 (Alt (Seq (Rep 1 3 (Atom Digit))
                              (Star True (Seq (Atom (Ch CHR '','')) (times 3 (Atom Digit)))))
                         (Plus True (Atom Digit)))"

definition books_shelved_re :: regex where
  "books_shelved_re = Seq number_re (Seq (Plus True (Atom Space)) (Lit ''books''))"

definition books_read_re :: regex where
  "books_read_re = Seq (Lit ''read'') (Seq (Star True (Atom Space)) (Seq (Lit ''('')
                     (Seq (Star False (Atom Dot)) (Seq number_re (Lit '')'')))))"

definition shelf_count_re :: "string \<Rightarrow> regex" where
  "shelf_count_re shelf = Seq (Lit shelf) (Seq (Lit ''&lrm;'') (Seq (Star True (Atom Space))
                            (Seq (Lit ''('') (Seq number_re (Lit '')'')))))"

definition friends_re :: regex where
  "friends_re = Seq (Lit '' Friends ('') (Seq digits_re (Lit '')''))"

definition group1 :: "regex \<Rightarrow> string \<Rightarrow> py_error + string" where
  "group1 r s = bind_err (attr_of_none (re_search r s)) (\<lambda>c. attr_of_none (map_of c 1))"

definition get_user_info :: "soup \<Rightarrow> py_error + user_info" where
  "get_user_info page =
     bind_err (try_except
        (bind_err (tag_attr (link_canonical page) ''href'') (\<lambda>canonical_link.
         bind_err (py_index (split_on CHR ''/'' canonical_link) (- 1)) (\<lambda>seg.
         py_index (split_on CHR ''-'' seg) 0)))
        TypeError_class []) (\<lambda>user_id'.
     bind_err (try_except
        (bind_err (attr_of_none (title_tag page)) (\<lambda>title'.
         bind_err (group1 books_shelved_re title') (\<lambda>g. Inr (replace_all '','' [] g))))
        AttributeError_class []) (\<lambda>books_shelved'.
     bind_err (try_except
        (bind_err (group1 books_read_re (soup_text page)) (\<lambda>g. Inr (replace_all '','' [] g)))
        AttributeError_class []) (\<lambda>books_read'.
     bind_err (try_except
        (bind_err (group1 (shelf_count_re ''currently-reading'') (soup_text page))
           (\<lambda>g. Inr (replace_all '','' [] g)))
        AttributeError_class []) (\<lambda>currently_reading_count'.
     bind_err (try_except
        (bind_err (group1 (shelf_count_re ''to-read'') (soup_text page))
           (\<lambda>g. Inr (replace_all '','' [] g)))
        AttributeError_class []) (\<lambda>to_read_count'.
     bind_err (try_except (tag_attr (meta_og_title page) ''content'') TypeError_class [])
       (\<lambda>full_name'.
     bind_err (try_except (tag_attr (meta_first_name page) ''content'') TypeError_class [])
       (\<lambda>first_name'.
     bind_err (try_except (tag_attr (meta_last_name page) ''content'') TypeError_class [])
       (\<lambda>last_name'.
     bind_err (try_except (tag_attr (meta_username page) ''content'') TypeError_class [])
       (\<lambda>username'.
     bind_err (try_except (group1 friends_re (soup_text page)) AttributeError_class [])
       (\<lambda>friends.
     Inr \<lparr> user_id = user_id', full_name = full_name', first_name = first_name',
           last_name = last_name', username = username', books_shelved = books_shelved',
           number_of_friends = friends, books_read = books_read',
           currently_reading_count = currently_reading_count',
           to_read_count = to_read_count' \<rparr>))))))))))"

text \<open>
  An element lookup is sound for a key when no element was found or the element found
  has the attribute.
\<close>

definition has_attr :: "attrs option \<Rightarrow> string \<Rightarrow> bool" where
  "has_attr tag key = (case tag of None \<Rightarrow> True | Some a \<Rightarrow> map_of a key \<noteq> None)"

section \<open>Inbound authentication: \<open>get_api_key\<close>\<close>

text \<open>
  The module reads \<open>BOOKBLEND_API_KEY = os.getenv("BOOKBLEND_API_KEY")\<close> once; \<open>os.getenv\<close>
  returns the variable's text, or Python's \<open>None\<close> when the variable is unset. The
  configured secret is therefore a \<open>string option\<close>. The header value handed to
  \<open>get_api_key\<close> is a \<open>str\<close>. The function either returns the header value or raises
  \<open>HTTPException(status_code=401, detail="401: Invalid API Key")\<close>; the exception is the
  \<open>Inl\<close> branch of the result.
\<close>

datatype http_exception = HTTPException (status_code: nat) (detail: string)

definition HTTP_401_UNAUTHORIZED :: nat where
  "HTTP_401_UNAUTHORIZED = 401"

definition get_api_key :: "string option \<Rightarrow> string \<Rightarrow> http_exception + string" where
  "get_api_key BOOKBLEND_API_KEY api_key_header =
     (if Some api_key_header = BOOKBLEND_API_KEY then Inr api_key_header
      else Inl (HTTPException HTTP_401_UNAUTHORIZED ''401: Invalid API Key''))"

section \<open>Sample data\<close>

text \<open>Two rows as the list page shows them, a small genre table, and a text-to-date function
  that knows two dates (year, month, day) and nothing else.\<close>

definition hobbit_row :: raw_row where
  "hobbit_row =
     \<lparr> title_cell = (''title The Hobbit'', Some ''/book/show/5907.The_Hobbit''),
       author_cell = (''author Tolkien, J.R.R.'', Some ''/author/show/656983.J_R_R_Tolkien''),
       pages_cell = (''num pages 366 pp'', None),
       rating_cell = (''avg rating 4.29'', None),
       ratings_cell = (''num ratings 3,864,263'', None),
       pub_cell = (''date pub Sep 21, 1937'', None),
       rating_1_cell = (''Ben's rating it was amazing'', None),
       votes_cell = (''# times read 1'', None),
       started_cell = (''date read Mar 2020'', None),
       read_cell = (''date added Mar 15, 2020'', None) \<rparr>"

definition dune_row :: raw_row where
  "dune_row =
     \<lparr> title_cell = (''title Dune'', Some ''/book/show/44767458-dune''),
       author_cell = (''author Herbert, Frank *'', Some ''/author/show/58.Frank_Herbert''),
       pages_cell = (''num pages unknown'', None),
       rating_cell = (''avg rating 4.27'', None),
       ratings_cell = (''num ratings 1,400,112'', None),
       pub_cell = (''date pub 1965'', None),
       rating_1_cell = (''Ben's rating'', None),
       votes_cell = (''# times read 0'', None),
       started_cell = (''date read not set'', None),
       read_cell = (''date added Apr 02, 2021'', None) \<rparr>"

definition sample_dates :: "string \<Rightarrow> (nat \<times> nat \<times> nat) option" where
  "sample_dates t =
     (if t = ''Mar 1, 2020'' then Some (2020, 3, 1)
      else if t = ''Mar 15, 2020'' then Some (2020, 3, 15)
      else None)"

definition sample_site :: "nat \<Rightarrow> nat \<Rightarrow> py_error + raw_row list" where
  "sample_site user page_num =
     (if page_num = 1 then Inr [hobbit_row, dune_row]
      else if page_num = 2 then Inr [dune_row]
      else Inr [])"




text \<open>A profile page, and the same page with a canonical link that has no \<open>href\<close>.\<close>

definition sample_profile :: soup where
  "sample_profile =
     \<lparr> link_canonical = Some [(''rel'', ''canonical''),
                               (''href'', ''https://www.goodreads.com/user/show/42944663-ben'')],
       title_tag = Some ''Ben Wallace - 1,234 books'',
       soup_text = ''Ben's bookshelves read (1,100) to-read (131) Ben's Friends (56)'',
       meta_og_title = Some [(''property'', ''og:title''), (''content'', ''Ben Wallace'')],
       meta_first_name = Some [(''property'', ''profile:first_name''), (''content'', ''Ben'')],
       meta_last_name = None,
       meta_username = Some [(''property'', ''profile:username''), (''content'', ''benfwalla'')] \<rparr>"

definition link_without_href :: soup where
  "link_without_href = sample_profile \<lparr> link_canonical := Some [(''rel'', ''canonical'')] \<rparr>"

section \<open>Properties of the pagination driver\<close>

lemma fetch_pages_run:
  "(\<And>k. k < n \<Longrightarrow> by_page (p + k) = Inr (pg k) \<and> pg k \<noteq> []) \<Longrightarrow>
   by_page (p + n) = Inr [] \<Longrightarrow>
   fetch_pages by_page p acc = Some (Inr (acc @ concat (map pg [0..<n])))"
proof (induction n arbitrary: p acc pg)
  case 0
  then show ?case by (subst fetch_pages.simps) simp
next
  case (Suc n)
  have first: "by_page p = Inr (pg 0)" "pg 0 \<noteq> []"
    using Suc.prems(1) [of 0] by simp_all
  have rest: "fetch_pages by_page (p + 1) (acc @ pg 0) =
      Some (Inr ((acc @ pg 0) @ concat (map (\<lambda>k. pg (Suc k)) [0..<n])))"
  proof (rule Suc.IH)
    fix k assume "k < n"
    then show "by_page (p + 1 + k) = Inr (pg (Suc k)) \<and> pg (Suc k) \<noteq> []"
      using Suc.prems(1) [of "Suc k"] by simp
  next
    show "by_page (p + 1 + n) = Inr []" using Suc.prems(2) by simp
  qed
  have "[0..<Suc n] = 0 # map Suc [0..<n]"
    by (simp add: upt_conv_Cons map_Suc_upt del: upt_Suc)
  then have shift: "concat (map pg [0..<Suc n]) = pg 0 @ concat (map (\<lambda>k. pg (Suc k)) [0..<n])"
    by (simp add: comp_def del: upt_Suc)
  show ?case
    by (subst fetch_pages.simps) (simp only: first rest shift sum.case if_False append_assoc)
qed

text \<open>
  C1. The driver starts at page 1 and reads one page per round. If pages \<open>1..N\<close> of the
  user's list have rows and page \<open>N + 1\<close> has none, the loop ends there, and the table
  returned is the parsed rows of pages \<open>1..N\<close>, page after page. What the site would
  answer for later pages plays no part.
\<close>

theorem get_all_goodreads_user_books_pages:
  assumes "\<And>k. 1 \<le> k \<Longrightarrow> k \<le> N \<Longrightarrow> read_html user k = Inr (raw k) \<and> raw k \<noteq> []"
    and "read_html user (N + 1) = Inr []"
  shows "get_all_goodreads_user_books read_html to_datetime user =
           Some (Inr (concat (map (\<lambda>k. map (parse_row to_datetime) (raw k)) [1..<N + 1])))"
proof -
  let ?by = "get_goodreads_user_books_by_page read_html to_datetime user"
  let ?pg = "\<lambda>k. map (parse_row to_datetime) (raw (1 + k))"
  have "fetch_pages ?by 1 [] = Some (Inr ([] @ concat (map ?pg [0..<N])))"
  proof (rule fetch_pages_run)
    fix k assume "k < N"
    then show "?by (1 + k) = Inr (?pg k) \<and> ?pg k \<noteq> []"
      using assms(1) [of "1 + k"] by (simp add: get_goodreads_user_books_by_page_def)
  next
    show "?by (1 + N) = Inr []"
      using assms(2) by (simp add: get_goodreads_user_books_by_page_def)
  qed
  moreover have "map ?pg [0..<N] = map (\<lambda>k. map (parse_row to_datetime) (raw k)) [1..<N + 1]"
    by (induction N) simp_all
  ultimately show ?thesis
    by (simp add: get_all_goodreads_user_books_def)
qed

theorem get_all_goodreads_user_books_pages_witness:
  "get_all_goodreads_user_books sample_site sample_dates 42944663 =
     Some (Inr (map (parse_row sample_dates) [hobbit_row, dune_row, dune_row]))"
proof -
  let ?raw = "\<lambda>k::nat. if k = 1 then [hobbit_row, dune_row] else [dune_row]"
  have pages: "sample_site 42944663 k = Inr (?raw k) \<and> ?raw k \<noteq> []" if "1 \<le> k" "k \<le> 2" for k
  proof -
    have "k = 1 \<or> k = 2" using that by arith
    then show ?thesis by (auto simp: sample_site_def)
  qed
  have last: "sample_site 42944663 (2 + 1) = Inr []"
    by (simp add: sample_site_def)
  have "[1..<2 + 1] = [1, 2::nat]"
    by (simp add: upt_conv_Cons)
  then show ?thesis
    using get_all_goodreads_user_books_pages
      [of 2 sample_site 42944663 ?raw sample_dates, OF pages last]
    by simp
qed

section \<open>Properties of the merger\<close>















section \<open>Properties of the text functions\<close>

lemma starts_with_append: "starts_with w (w @ t)"
  by (simp add: starts_with_def)

lemma replace_first_prefix: "replace_first w new (w @ t) = new @ t"
proof (cases "w @ t")
  case Nil
  then show ?thesis by simp
next
  case (Cons a list)
  have "starts_with w (a # list)"
    using starts_with_append [of w t] Cons by simp
  then have "replace_first w new (a # list) = new @ drop (length w) (a # list)"
    by simp
  then show ?thesis using Cons by (metis append_eq_conv_conj)
qed

lemma replace_first_absent: "\<not> contains w s \<Longrightarrow> replace_first w new s = s"
  by (induction s) auto

lemma starts_with_marker:
  "starts_with '' *'' s \<longleftrightarrow> (\<exists>r. s = CHR '' '' # CHR ''*'' # r)"
  by (cases s rule: list.exhaust; cases "tl s") (auto simp: starts_with_def)

lemma replace_first_marker:
  "\<not> contains '' *'' u \<Longrightarrow> replace_first '' *'' new (u @ '' *'' @ v) = u @ new @ v"
proof (induction u)
  case Nil
  show ?case using replace_first_prefix [of "'' *''" new v] by simp
next
  case (Cons x xs)
  have no: "\<not> starts_with '' *'' (x # xs)" and rest: "\<not> contains '' *'' xs"
    using Cons.prems by simp_all
  have "\<not> starts_with '' *'' (x # xs @ '' *'' @ v)"
    using no by (cases xs) (auto simp: starts_with_marker)
  then show ?case
    using Cons.IH [OF rest] by simp
qed












section \<open>Properties of the title, author and date texts\<close>

text \<open>
  C7, as the code has it. \<open>replace(old, '', 1)\<close> removes the first occurrence of \<open>old\<close>,
  wherever it is, and \<open>strip\<close> then removes whitespace at both ends. A title cell that
  starts with \<open>title\<close> and a space loses exactly that prefix, and later occurrences stay. An
  author cell that starts with \<open>author\<close> and a space loses that prefix and the first
  \<open>' *'\<close> of the rest: the trailing marker when there is none before it, an occurrence in
  the middle otherwise.
\<close>

theorem clean_title_author_first_occurrence:
  "clean_title (''title '' @ t) = strip t \<and>
   (\<not> contains '' *'' u \<longrightarrow> clean_author (''author '' @ u @ '' *'' @ v) = strip (u @ v)) \<and>
   (\<not> contains '' *'' u \<longrightarrow> clean_author (''author '' @ u) = strip u)"
proof (intro conjI impI)
  show "clean_title (''title '' @ t) = strip t"
    unfolding clean_title_def by (simp only: replace_first_prefix append_Nil)
next
  assume "\<not> contains '' *'' u"
  then have "replace_first '' *'' [] (u @ '' *'' @ v) = u @ [] @ v"
    by (rule replace_first_marker)
  then show "clean_author (''author '' @ u @ '' *'' @ v) = strip (u @ v)"
    unfolding clean_author_def by (simp only: replace_first_prefix append_Nil)
next
  assume "\<not> contains '' *'' u"
  then have "replace_first '' *'' [] u = u"
    by (rule replace_first_absent)
  then show "clean_author (''author '' @ u) = strip u"
    unfolding clean_author_def by (simp only: replace_first_prefix append_Nil)
qed

theorem clean_title_author_first_occurrence_witness:
  "clean_title ''title The title page'' = ''The title page'' \<and>
   \<not> contains '' *'' ''Herbert, Frank'' \<and>
   clean_author ''author Herbert, Frank *'' = ''Herbert, Frank'' \<and>
   clean_author ''author Herbert, Frank'' = ''Herbert, Frank''"
proof -
  have n: "\<not> contains '' *'' ''Herbert, Frank''"
    by (simp add: starts_with_def)
  have s1: "strip ''The title page'' = ''The title page''"
    and s2: "strip ''Herbert, Frank'' = ''Herbert, Frank''"
    by (simp_all add: strip_def is_space_def)
  show ?thesis
    using clean_title_author_first_occurrence
            [of "''The title page''" "''Herbert, Frank''" "[]"] n s1 s2
    by simp
qed

theorem clean_author_middle_marker_counterexample:
  "clean_author ''author A *B *'' = ''AB *'' \<and> clean_author ''author A *B *'' \<noteq> ''A *B''"
  by (simp add: clean_author_def strip_def starts_with_def is_space_def)




section \<open>Properties of the matcher\<close>

lemma Lit_Nil: "Lit [] = Epsilon"
  by (simp add: Lit_def)

lemma Lit_Cons: "Lit (x # xs) = Seq (Atom (Ch x)) (Lit xs)"
  by (simp add: Lit_def)

lemma ms_Lit_match: "ms (Lit w) (p, w @ r, c) = [(prev_after p w, r, c)]"
proof (induction w arbitrary: p)
  case Nil
  show ?case by (simp add: Lit_Nil prev_after_def)
next
  case (Cons x xs)
  show ?case
    using Cons [of "Some x"] by (simp add: Lit_Cons prev_after_def)
qed

lemma starts_with_Cons:
  "starts_with (x # xs) s \<longleftrightarrow> (\<exists>t. s = x # t \<and> starts_with xs t)"
  by (cases s) (auto simp: starts_with_def)

lemma ms_Lit_fail: "\<not> starts_with w s \<Longrightarrow> ms (Lit w) (p, s, c) = []"
proof (induction w arbitrary: p s)
  case Nil
  then show ?case by (simp add: starts_with_def)
next
  case (Cons x xs)
  show ?case
  proof (cases s)
    case Nil
    then show ?thesis by (simp add: Lit_Cons)
  next
    case (Cons y ys)
    show ?thesis
    proof (cases "y = x")
      case True
      then have "\<not> starts_with xs ys"
        using Cons.prems Cons by (simp add: starts_with_Cons)
      then have "ms (Lit xs) (Some y, ys, c) = []" by (rule Cons.IH)
      then show ?thesis using Cons True by (simp add: Lit_Cons)
    next
      case False
      then show ?thesis using Cons by (simp add: Lit_Cons)
    qed
  qed
qed

lemma star_Nil: "ms (Star g (Atom a)) (p, [], c) = [(p, [], c)]"
  by (simp add: ms_Star)

lemma star_Cons_greedy:
  "ms (Star True (Atom a)) (p, x # xs, c) =
     (if atom_ok a x then ms (Star True (Atom a)) (Some x, xs, c) else []) @ [(p, x # xs, c)]"
  by (simp add: ms_Star)

lemma star_Cons_lazy:
  "ms (Star False (Atom a)) (p, x # xs, c) =
     (p, x # xs, c) # (if atom_ok a x then ms (Star False (Atom a)) (Some x, xs, c) else [])"
  by (simp add: ms_Star)

lemma star_greedy_first:
  "ms (Star True (Atom a)) (p, s, c) \<noteq> [] \<and>
   hd (ms (Star True (Atom a)) (p, s, c)) =
     (prev_after p (takeWhile (atom_ok a) s), dropWhile (atom_ok a) s, c)"
proof (induction s arbitrary: p)
  case Nil
  show ?case by (simp add: prev_after_def star_Nil)
next
  case (Cons x xs)
  show ?case
  proof (cases "atom_ok a x")
    case True
    have unf: "ms (Star True (Atom a)) (p, x # xs, c) =
                 ms (Star True (Atom a)) (Some x, xs, c) @ [(p, x # xs, c)]"
      using True by (simp only: star_Cons_greedy if_True)
    have pa: "prev_after p (x # takeWhile (atom_ok a) xs) =
                prev_after (Some x) (takeWhile (atom_ok a) xs)"
      by (simp add: prev_after_def)
    show ?thesis
      unfolding unf using Cons [of "Some x"] True pa by simp
  next
    case False
    have unf: "ms (Star True (Atom a)) (p, x # xs, c) = [(p, x # xs, c)]"
      using False by (simp only: star_Cons_greedy if_False append_Nil)
    show ?thesis
      unfolding unf using False by (simp add: prev_after_def)
  qed
qed

lemma atom_ok_Digit: "atom_ok Digit = is_digit"
  by (rule ext) simp

lemma atom_ok_Space: "atom_ok Space = is_space"
  by (rule ext) simp


lemma ms_suffix:
  "st' \<in> set (ms r st) \<Longrightarrow> \<exists>u. fst (snd st) = u @ fst (snd st')"
proof (induction r st arbitrary: st' rule: ms.induct)
  case (1 a p s c)
  then show ?case by (cases s) (auto split: if_splits)
next
  case (2 st)
  then show ?case by simp
next
  case (3 r1 r2 st)
  from "3.prems" obtain m where m: "m \<in> set (ms r1 st)" and s: "st' \<in> set (ms r2 m)"
    by auto
  from "3.IH"(1) [OF m] obtain u where u: "fst (snd st) = u @ fst (snd m)" by blast
  from "3.IH"(2) [OF m s] obtain v where "fst (snd m) = v @ fst (snd st')" by blast
  with u have "fst (snd st) = (u @ v) @ fst (snd st')" by simp
  then show ?case by blast
next
  case (4 r1 r2 st)
  from "4.prems" have "st' \<in> set (ms r1 st) \<or> st' \<in> set (ms r2 st)"
    by simp
  then show ?case using "4.IH" by blast
next
  case (5 greedy r p s c)
  let ?mid = "filter (\<lambda>st'. length (fst (snd st')) < length s) (ms r (p, s, c))"
  from "5.prems" have "st' \<in> set (let more = concat (map (ms (Star greedy r)) ?mid)
                         in if greedy then more @ [(p, s, c)] else (p, s, c) # more)"
    by (simp only: ms_Star)
  then have "st' = (p, s, c) \<or> (\<exists>m \<in> set ?mid. st' \<in> set (ms (Star greedy r) m))"
    by (auto simp: Let_def split: if_splits)
  then show ?case
  proof
    assume "st' = (p, s, c)"
    then show ?thesis by simp
  next
    assume "\<exists>m \<in> set ?mid. st' \<in> set (ms (Star greedy r) m)"
    then obtain m where m: "m \<in> set ?mid" and s: "st' \<in> set (ms (Star greedy r) m)"
      by blast
    from m have m': "m \<in> set (ms r (p, s, c))" by simp
    from "5.IH"(1) [OF m'] obtain u where u: "s = u @ fst (snd m)" by auto
    from "5.IH"(2) [OF m s] obtain v where "fst (snd m) = v @ fst (snd st')" by blast
    with u have "fst (snd (p, s, c)) = (u @ v) @ fst (snd st')" by simp
    then show ?thesis by blast
  qed
next
  case (6 n r p s c)
  from "6.prems" obtain m where m: "m \<in> set (ms r (p, s, c))" and "fst (snd st') = fst (snd m)"
    by (auto split: prod.splits)
  then show ?case using "6.IH" [OF m] by simp
next
  case (7 p s c)
  then show ?case by (auto split: if_splits)
next
  case (8 p s c)
  then show ?case by (auto split: if_splits)
qed

lemma take_takeWhile: "take (length xs - length (dropWhile P xs)) xs = takeWhile P xs"
proof -
  have "length xs = length (takeWhile P xs) + length (dropWhile P xs)"
    by (metis length_append takeWhile_dropWhile_id)
  then have "length xs - length (dropWhile P xs) = length (takeWhile P xs)"
    by simp
  then show ?thesis
    by (metis append_eq_conv_conj takeWhile_dropWhile_id)
qed

lemma digits_ms_none:
  "s = [] \<or> \<not> is_digit (hd s) \<Longrightarrow> ms digits_re (p, s, c) = []"
  by (cases s) (auto simp: digits_re_def Plus_def)

lemma digits_ms_first:
  assumes "is_digit x"
  shows "\<exists>q rest. ms digits_re (p, x # xs, c) =
           (q, dropWhile is_digit xs, (1, takeWhile is_digit (x # xs)) # c) # rest"
proof -
  let ?star = "ms (Star True (Atom Digit)) (Some x, xs, c)"
  have seq: "ms (Seq (Atom Digit) (Star True (Atom Digit))) (p, x # xs, c) = ?star"
    using assms by (simp)
  obtain rest where star: "?star =
      (prev_after (Some x) (takeWhile is_digit xs), dropWhile is_digit xs, c) # rest"
    using star_greedy_first [of Digit "Some x" xs c]
    by (cases ?star) (simp_all add: atom_ok_Digit)
  have "take (length (x # xs) - length (dropWhile is_digit xs)) (x # xs) = x # takeWhile is_digit xs"
    using take_takeWhile [of "x # xs" is_digit] assms by simp
  then show ?thesis
    using assms by (simp add: digits_re_def Plus_def seq star)
qed

lemma search_digits:
  "search_from digits_re p s =
     (case dropWhile (\<lambda>ch. \<not> is_digit ch) s of
        [] \<Rightarrow> None
      | t # ts \<Rightarrow> Some [(1, takeWhile is_digit (t # ts))])"
proof (induction s arbitrary: p)
  case Nil
  show ?case using digits_ms_none [of "[]" p "[]"] by simp
next
  case (Cons x xs)
  show ?case
  proof (cases "is_digit x")
    case True
    from digits_ms_first [OF True, of p xs "[]"] obtain q rest where
      "ms digits_re (p, x # xs, []) =
         (q, dropWhile is_digit xs, [(1, takeWhile is_digit (x # xs))]) # rest"
      by blast
    then show ?thesis using True by simp
  next
    case False
    then have "ms digits_re (p, x # xs, []) = []"
      by (intro digits_ms_none) simp
    then show ?thesis using False Cons [of "Some x"] by simp
  qed
qed

lemma str_extract_digits:
  "str_extract digits_re 1 s =
     (case dropWhile (\<lambda>ch. \<not> is_digit ch) s of
        [] \<Rightarrow> None
      | t # ts \<Rightarrow> Some (takeWhile is_digit (t # ts)))"
  by (cases "dropWhile (\<lambda>ch. \<not> is_digit ch) s")
     (simp_all add: str_extract_def re_search_def search_digits del: dropWhile_eq_Nil_conv)

lemma parse_read_flag_char:
  "parse_read_flag x =
     (case dropWhile (\<lambda>ch. \<not> is_digit ch) x of
        [] \<Rightarrow> False
      | t # ts \<Rightarrow> 0 < nat_of_digits (takeWhile is_digit (t # ts)))"
  unfolding parse_read_flag_def to_numeric_def str_extract_digits
  by (cases "dropWhile (\<lambda>ch. \<not> is_digit ch) x") (simp_all del: dropWhile_eq_Nil_conv)

lemma first_digit_run:
  assumes "\<forall>ch \<in> set pre. \<not> is_digit ch" and "ds \<noteq> []" and "\<forall>ch \<in> set ds. is_digit ch"
    and "r = [] \<or> \<not> is_digit (hd r)"
  shows "dropWhile (\<lambda>ch. \<not> is_digit ch) (pre @ ds @ r) = ds @ r"
    and "takeWhile is_digit (ds @ r) = ds"
proof -
  have "\<not> (\<lambda>ch. \<not> is_digit ch) (hd (ds @ r))"
    using assms(2,3) by (cases ds) simp_all
  then have "dropWhile (\<lambda>ch. \<not> is_digit ch) (ds @ r) = ds @ r"
    using assms(2) by (cases "ds @ r") simp_all
  then show "dropWhile (\<lambda>ch. \<not> is_digit ch) (pre @ ds @ r) = ds @ r"
    using assms(1) by simp
  show "takeWhile is_digit (ds @ r) = ds"
    using assms(3,4) by (cases r) simp_all
qed

section \<open>Properties of the read flag\<close>

text \<open>
  C5, as the code has it. \<open>read_flag\<close> is decided by the first run of digits of the votes
  cell, which for a cell of the form \<open># times read n\<close> is \<open>n\<close>: the flag is true exactly
  when that number is above 0. A cell without a digit gives no number, and the flag is
  then false: the column is a boolean and has no missing value.
\<close>

theorem parse_read_flag_first_number:
  "((\<forall>ch \<in> set x. \<not> is_digit ch) \<longrightarrow> \<not> parse_read_flag x) \<and>
   ((\<forall>ch \<in> set pre. \<not> is_digit ch) \<and> ds \<noteq> [] \<and> (\<forall>ch \<in> set ds. is_digit ch) \<and>
      (r = [] \<or> \<not> is_digit (hd r)) \<longrightarrow>
    parse_read_flag (pre @ ds @ r) = (0 < nat_of_digits ds))"
proof (intro conjI impI)
  assume "\<forall>ch \<in> set x. \<not> is_digit ch"
  then have "dropWhile (\<lambda>ch. \<not> is_digit ch) x = []"
    by simp
  then show "\<not> parse_read_flag x"
    unfolding parse_read_flag_char by (simp only: list.case simp_thms)
next
  assume a: "(\<forall>ch \<in> set pre. \<not> is_digit ch) \<and> ds \<noteq> [] \<and> (\<forall>ch \<in> set ds. is_digit ch) \<and>
      (r = [] \<or> \<not> is_digit (hd r))"
  then have d: "dropWhile (\<lambda>ch. \<not> is_digit ch) (pre @ ds @ r) = ds @ r"
    and t: "takeWhile is_digit (ds @ r) = ds"
    using first_digit_run [of pre ds r] by blast+
  obtain y ys where ys: "ds @ r = y # ys"
    using a by (cases "ds @ r") simp_all
  show "parse_read_flag (pre @ ds @ r) = (0 < nat_of_digits ds)"
    unfolding parse_read_flag_char d using t ys by simp
qed

theorem parse_read_flag_first_number_witness:
  "\<not> parse_read_flag ''# times read'' \<and>
   parse_read_flag ''# times read 2'' \<and>
   \<not> parse_read_flag ''# times read 0''"
proof -
  have n: "\<forall>ch \<in> set ''# times read''. \<not> is_digit ch"
    and m: "\<forall>ch \<in> set ''# times read ''. \<not> is_digit ch"
    by (simp_all add: is_digit_def)
  have d: "\<forall>ch \<in> set ''2''. is_digit ch" "\<forall>ch \<in> set ''0''. is_digit ch"
    by (simp_all add: is_digit_def)
  show ?thesis
    using parse_read_flag_first_number [of "''# times read''" "''# times read ''" "''2''" "[]"]
          parse_read_flag_first_number [of "''# times read''" "''# times read ''" "''0''" "[]"]
          n m d
    by (simp add: nat_of_digits_def digit_val_def)
qed

theorem parse_read_flag_no_number_counterexample:
  "str_extract digits_re 1 ''# times read'' = None \<and> parse_read_flag ''# times read'' = False"
  by (simp add: parse_read_flag_def to_numeric_def str_extract_def re_search_def
        digits_re_def Plus_def is_digit_def ms_Star)

section \<open>Properties of the date normalizer\<close>

lemma search_from_hit:
  "ms re (p, s, []) = (q, t, c) # rest \<Longrightarrow> search_from re p s = Some c"
  by (cases s) simp_all


lemma search_from_miss:
  "(\<And>p t. \<not> contains w t \<Longrightarrow> ms re (p, t, []) = []) \<Longrightarrow> \<not> contains w s \<Longrightarrow>
   search_from re p s = None"
proof (induction s arbitrary: p)
  case Nil
  then have "ms re (p, [], []) = []" by blast
  then show ?case by simp
next
  case (Cons x xs)
  from Cons.prems(2) have b: "\<not> contains w xs"
    by simp
  have "ms re (p, x # xs, []) = []" using Cons.prems by blast
  moreover have "search_from re (Some x) xs = None"
    using Cons.prems(1) b by (rule Cons.IH)
  ultimately show ?case by simp
qed









section \<open>Properties of the user's rating\<close>

lemma rating_re_like: "rating_re = rating_like '''s rating''"
  by (simp add: rating_re_def rating_like_def tail_like_def)

lemma starts_with_long: "length w \<le> length u \<Longrightarrow> starts_with w (u @ v) = starts_with w u"
  by (simp add: starts_with_def)

lemma not_contains_suffix: "\<not> contains w (u @ v) \<Longrightarrow> \<not> starts_with w v"
proof (induction u)
  case Nil
  then show ?case by (cases v) (simp_all add: starts_with_def)
next
  case (Cons x xs)
  then show ?case by simp
qed

lemma not_contains_positions:
  "w \<noteq> [] \<Longrightarrow> \<not> contains w (u @ butlast w) \<Longrightarrow> i < length u \<Longrightarrow>
   \<not> starts_with w (drop i (u @ w @ r))"
proof (induction u arbitrary: i)
  case Nil
  then show ?case by simp
next
  case (Cons x xs)
  from Cons.prems(2) have a: "\<not> starts_with w ((x # xs) @ butlast w)"
    and b: "\<not> contains w (xs @ butlast w)"
    by simp_all
  show ?case
  proof (cases i)
    case 0
    have "(x # xs) @ w @ r = ((x # xs) @ butlast w) @ (last w # r)"
      using Cons.prems(1) by simp
    moreover have "length w \<le> length ((x # xs) @ butlast w)"
      by simp
    ultimately have "\<not> starts_with w ((x # xs) @ w @ r)"
      using a starts_with_long by metis
    then show ?thesis using 0 by simp
  next
    case (Suc j)
    then have "j < length xs" using Cons.prems(3) by simp
    then have "\<not> starts_with w (drop j (xs @ w @ r))"
      using Cons.IH [OF Cons.prems(1) b] by blast
    then show ?thesis using Suc by simp
  qed
qed

lemma lazy_dot_to_end:
  "CHR 0x0A \<notin> set t \<Longrightarrow>
   concat (map (ms Eos)
     (map (\<lambda>(p', s', c'). (p', s', (n, take (length s0 - length s') s0) # c'))
        (ms (Star False (Atom Dot)) (q, t, c)))) =
   [(prev_after q t, [], (n, s0) # c)]"
proof (induction t arbitrary: q)
  case Nil
  show ?case by (simp add: star_Nil prev_after_def)
next
  case (Cons y ys)
  then have y: "y \<noteq> CHR 0x0A" and ys: "CHR 0x0A \<notin> set ys" by auto
  have "prev_after (Some y) ys = prev_after q (y # ys)"
    by (simp add: prev_after_def)
  then show ?case
    using Cons.IH [OF ys, of "Some y"] y by (simp add: star_Cons_lazy)
qed

lemma group2_to_end:
  "CHR 0x0A \<notin> set t \<Longrightarrow>
   ms (Seq (Group 2 (Star False (Atom Dot))) Eos) (q, t, c) = [(prev_after q t, [], (2, t) # c)]"
  using lazy_dot_to_end [of t 2 t q c] by simp

lemma tail_like_first:
  assumes "CHR 0x0A \<notin> set r"
  shows "\<exists>q rest. ms (tail_like w) (p, w @ r, c) =
           (q, [], (2, dropWhile is_space r) # c) # rest"
proof -
  let ?X = "Seq (Group 2 (Star False (Atom Dot))) Eos"
  let ?p1 = "prev_after p w"
  let ?r1 = "dropWhile is_space r"
  obtain q1 rest1 where sp: "ms (Star True (Atom Space)) (?p1, r, c) = (q1, ?r1, c) # rest1"
    using star_greedy_first [of Space ?p1 r c]
    by (cases "ms (Star True (Atom Space)) (?p1, r, c)") (simp_all add: atom_ok_Space)
  have "CHR 0x0A \<notin> set ?r1"
    using assms by (blast dest: set_dropWhileD)
  then have x: "ms ?X (q1, ?r1, c) = [(prev_after q1 ?r1, [], (2, ?r1) # c)]"
    by (rule group2_to_end)
  have "ms (tail_like w) (p, w @ r, c) =
          concat (map (ms ?X) (ms (Star True (Atom Space)) (?p1, r, c)))"
    unfolding tail_like_def
    by (simp only: ms.simps(3) ms_Lit_match list.map concat.simps append_Nil2)
  then show ?thesis
    unfolding sp by (simp only: list.map concat.simps x append_Cons append_Nil) blast
qed

lemma tail_like_none: "\<not> starts_with w t \<Longrightarrow> ms (tail_like w) (p, t, c) = []"
proof -
  assume "\<not> starts_with w t"
  then have "ms (Lit w) (p, t, c) = []"
    by (rule ms_Lit_fail)
  then show ?thesis
    unfolding tail_like_def by (simp only: ms.simps(3) list.map concat.simps)
qed

lemma lazy_dot_skip:
  assumes "CHR 0x0A \<notin> set u" and "\<And>i q' c'. i < length u \<Longrightarrow> K (q', drop i (u @ z), c') = []"
  shows "concat (map K
           (map (\<lambda>(p', s', c'). (p', s', (n, take (length s0 - length s') s0) # c'))
              (ms (Star False (Atom Dot)) (q, u @ z, c)))) =
         concat (map K
           (map (\<lambda>(p', s', c'). (p', s', (n, take (length s0 - length s') s0) # c'))
              (ms (Star False (Atom Dot)) (prev_after q u, z, c))))"
  using assms
proof (induction u arbitrary: q)
  case Nil
  show ?case by (simp add: prev_after_def)
next
  case (Cons x xs)
  from Cons.prems(1) have x: "x \<noteq> CHR 0x0A" and xs: "CHR 0x0A \<notin> set xs"
    by auto
  have none: "K (q', x # xs @ z, c') = []" for q' c'
    using Cons.prems(2) [of 0 q' c'] by simp
  have rest: "K (q', drop i (xs @ z), c') = []" if "i < length xs" for i q' c'
    using Cons.prems(2) [of "Suc i" q' c'] that by simp
  have pa: "prev_after (Some x) xs = prev_after q (x # xs)"
    by (simp add: prev_after_def)
  have "ms (Star False (Atom Dot)) (q, (x # xs) @ z, c) =
          (q, x # xs @ z, c) # ms (Star False (Atom Dot)) (Some x, xs @ z, c)"
    using x by (simp add: star_Cons_lazy)
  then show ?case
    using Cons.IH [OF xs rest, of "Some x"] by (simp add: none pa)
qed

lemma rating_like_first:
  assumes "w \<noteq> []" and "owner \<noteq> []" and "CHR 0x0A \<notin> set owner"
    and "\<not> contains w (owner @ butlast w)" and "CHR 0x0A \<notin> set r"
  shows "\<exists>q rest. ms (rating_like w) (p, owner @ w @ r, c) =
           (q, [], (2, dropWhile is_space r) # (1, owner) # c) # rest"
proof -
  obtain x xs where owner: "owner = x # xs"
    using assms(2) by (cases owner) simp_all
  obtain y ys where w: "w = y # ys"
    using assms(1) by (cases w) simp_all
  let ?s0 = "owner @ w @ r"
  let ?grp = "\<lambda>(p', s', c'). (p', s', (1::nat, take (length ?s0 - length s') ?s0) # c')"
  let ?lazy = "ms (Star False (Atom Dot))"
  let ?K = "ms (tail_like w)"
  have x: "x \<noteq> CHR 0x0A" and xs: "CHR 0x0A \<notin> set xs"
    using assms(3) owner by auto
  have b: "\<not> contains w (xs @ butlast w)"
    using assms(4) owner by simp
  have skip: "?K (q', drop i (xs @ w @ r), c') = []" if "i < length xs" for i q' c'
    using not_contains_positions [OF assms(1) b that] by (rule tail_like_none)
  have plus: "ms (Plus False (Atom Dot)) (p, ?s0, c) = ?lazy (Some x, xs @ w @ r, c)"
    using x owner by (simp add: Plus_def)
  have "ms (rating_like w) (p, ?s0, c) =
          concat (map ?K (map ?grp (?lazy (Some x, xs @ w @ r, c))))"
    unfolding rating_like_def by (simp only: ms.simps(3) ms.simps(6) plus)
  also have "\<dots> = concat (map ?K (map ?grp (?lazy (prev_after (Some x) xs, w @ r, c))))"
    using xs skip by (rule lazy_dot_skip)
  finally have eq: "ms (rating_like w) (p, ?s0, c) =
      concat (map ?K (map ?grp (?lazy (prev_after (Some x) xs, w @ r, c))))" .
  have cap: "take (length ?s0 - length (w @ r)) ?s0 = owner"
    by simp
  obtain more where lazy: "?lazy (prev_after (Some x) xs, w @ r, c) =
      (prev_after (Some x) xs, w @ r, c) # more"
    unfolding w by (simp add: star_Cons_lazy)
  obtain q rest where tl: "?K (prev_after (Some x) xs, w @ r, (1, owner) # c) =
      (q, [], (2, dropWhile is_space r) # (1, owner) # c) # rest"
    using tail_like_first [OF assms(5)] by blast
  show ?thesis
    unfolding eq lazy
    by (simp only: list.map concat.simps prod.case cap tl append_Cons) blast
qed

lemma rating_like_none:
  assumes "\<not> contains w t"
  shows "ms (rating_like w) (p, t, c) = []"
proof -
  have "ms (tail_like w) st' = []"
    if "st' \<in> set (ms (Group 1 (Plus False (Atom Dot))) (p, t, c))" for st'
  proof -
    obtain a b c' where st': "st' = (a, b, c')" by (cases st')
    from ms_suffix [OF that] obtain u where "t = u @ b"
      using st' by auto
    then have "\<not> starts_with w b"
      using assms not_contains_suffix by blast
    then show ?thesis
      unfolding st' by (rule tail_like_none)
  qed
  then show ?thesis
    unfolding rating_like_def by (simp only: ms.simps(3)) simp
qed

lemma strip_dropWhile: "strip (dropWhile is_space r) = strip r"
  by (simp add: strip_def)

lemma str_extract_rating:
  assumes "owner \<noteq> []" and "CHR 0x0A \<notin> set owner"
    and "\<not> contains '''s rating'' (owner @ '''s ratin'')" and "CHR 0x0A \<notin> set r"
  shows "str_extract rating_re 2 (owner @ '''s rating'' @ r) = Some (dropWhile is_space r)"
proof -
  have w: "'''s rating'' \<noteq> []"
    and bl: "'''s ratin'' = butlast '''s rating''"
    by simp_all
  obtain q rest where "ms rating_re (None, owner @ '''s rating'' @ r, []) =
      (q, [], [(2, dropWhile is_space r), (1, owner)]) # rest"
    using rating_like_first [OF w assms(1,2) assms(3) [unfolded bl] assms(4), of None "[]"]
    unfolding rating_re_like by blast
  then have "search_from rating_re None (owner @ '''s rating'' @ r) =
      Some [(2, dropWhile is_space r), (1, owner)]"
    by (rule search_from_hit)
  then show ?thesis
    unfolding str_extract_def re_search_def by simp
qed

lemma str_extract_rating_none:
  assumes "\<not> contains '''s rating'' x"
  shows "str_extract rating_re 2 x = None"
proof -
  have "search_from rating_re None x = None"
    using assms unfolding rating_re_like
    by (intro search_from_miss [where w = "'''s rating''"]) (simp_all add: rating_like_none)
  then show ?thesis
    unfolding str_extract_def re_search_def by simp
qed

text \<open>
  C4. A rating cell is an owner's name, \<open>'s rating\<close>, and the text after it. When the name
  is not empty and \<open>'s rating\<close> occurs first at its end (and the cell is one line), the
  user's rating is the entry of the fixed vocabulary for the text after \<open>'s rating\<close>,
  whitespace at both ends aside: the five phrases give 1 to 5, and every other text,
  the empty one included, gives missing. A cell without \<open>'s rating\<close> gives missing.
\<close>

theorem parse_user_rating_vocabulary:
  "(owner \<noteq> [] \<and> CHR 0x0A \<notin> set owner \<and> \<not> contains '''s rating'' (owner @ '''s ratin'') \<and>
      CHR 0x0A \<notin> set r \<longrightarrow>
    parse_user_rating (owner @ '''s rating'' @ r) = map_of rating_mapping (strip r)) \<and>
   map_of rating_mapping ''did not like it'' = Some 1 \<and>
   map_of rating_mapping ''it was ok'' = Some 2 \<and>
   map_of rating_mapping ''liked it'' = Some 3 \<and>
   map_of rating_mapping ''really liked it'' = Some 4 \<and>
   map_of rating_mapping ''it was amazing'' = Some 5 \<and>
   (t \<notin> {''did not like it'', ''it was ok'', ''liked it'', ''really liked it'',
          ''it was amazing''} \<longrightarrow> map_of rating_mapping t = None) \<and>
   (\<not> contains '''s rating'' x \<longrightarrow> parse_user_rating x = None)"
proof (intro conjI impI)
  assume a: "owner \<noteq> [] \<and> CHR 0x0A \<notin> set owner \<and>
      \<not> contains '''s rating'' (owner @ '''s ratin'') \<and> CHR 0x0A \<notin> set r"
  then have "str_extract rating_re 2 (owner @ '''s rating'' @ r) = Some (dropWhile is_space r)"
    by (intro str_extract_rating) simp_all
  then show "parse_user_rating (owner @ '''s rating'' @ r) = map_of rating_mapping (strip r)"
    unfolding parse_user_rating_def by (simp add: strip_dropWhile)
next
  assume "\<not> contains '''s rating'' x"
  then have "str_extract rating_re 2 x = None"
    by (rule str_extract_rating_none)
  then show "parse_user_rating x = None"
    unfolding parse_user_rating_def by simp
next
  assume "t \<notin> {''did not like it'', ''it was ok'', ''liked it'', ''really liked it'',
          ''it was amazing''}"
  then show "map_of rating_mapping t = None"
    by (simp add: rating_mapping_def)
qed (simp_all add: rating_mapping_def)

theorem parse_user_rating_vocabulary_witness:
  "parse_user_rating ''Ben's rating it was amazing'' = Some 5 \<and>
   parse_user_rating ''Ben's rating really liked it'' = Some 4 \<and>
   parse_user_rating ''Ben's rating'' = None \<and>
   parse_user_rating ''Ben's rating loved it'' = None \<and>
   parse_user_rating ''not rated'' = None"
proof -
  have o: "''Ben'' \<noteq> []" "CHR 0x0A \<notin> set ''Ben''"
    "\<not> contains '''s rating'' (''Ben'' @ '''s ratin'')"
    by (simp_all add: starts_with_def)
  have r: "CHR 0x0A \<notin> set '' it was amazing''" "CHR 0x0A \<notin> set '' really liked it''"
    "CHR 0x0A \<notin> set []" "CHR 0x0A \<notin> set '' loved it''"
    by simp_all
  have s: "strip '' it was amazing'' = ''it was amazing''"
    "strip '' really liked it'' = ''really liked it''"
    "strip [] = []" "strip '' loved it'' = ''loved it''"
    by (simp_all add: strip_def is_space_def)
  have n: "\<not> contains '''s rating'' ''not rated''"
    by (simp add: starts_with_def)
  have t: "[] \<notin> {''did not like it'', ''it was ok'', ''liked it'', ''really liked it'',
          ''it was amazing''}"
    "''loved it'' \<notin> {''did not like it'', ''it was ok'', ''liked it'', ''really liked it'',
          ''it was amazing''}"
    by simp_all
  show ?thesis
    using parse_user_rating_vocabulary [of "''Ben''" "'' it was amazing''" "[]" "''not rated''"]
          parse_user_rating_vocabulary [of "''Ben''" "'' really liked it''" "[]" "''not rated''"]
          parse_user_rating_vocabulary [of "''Ben''" "[]" "[]" "''not rated''"]
          parse_user_rating_vocabulary [of "''Ben''" "'' loved it''" "''loved it''" "''not rated''"]
          o r n t
    by (simp add: s)
qed

section \<open>Properties of the profile scraper\<close>

lemma get_user_info_sample:
  "get_user_info sample_profile =
     Inr \<lparr> user_id = ''42944663'', full_name = ''Ben Wallace'', first_name = ''Ben'',
           last_name = [], username = ''benfwalla'', books_shelved = ''1234'',
           number_of_friends = ''56'', books_read = ''1100'',
           currently_reading_count = [], to_read_count = [] \<rparr>"
  by code_simp

text \<open>
  C6. Each field has its own \<open>try\<close>, and a missing element gives the empty text for that
  field alone. But the handlers of the five attribute lookups catch \<open>TypeError\<close> only: an
  element that is found and lacks the attribute raises \<open>KeyError\<close>, which leaves the
  function. On the sample page with a canonical link that has no \<open>href\<close>, no record is
  returned; with no canonical link at all, the record is returned with an empty
  \<open>user_id\<close>.
\<close>

theorem get_user_info_missing_attribute_raises:
  "get_user_info link_without_href = Inl (KeyError ''href'') \<and>
   get_user_info (sample_profile \<lparr> link_canonical := None \<rparr>) =
     Inr \<lparr> user_id = [], full_name = ''Ben Wallace'', first_name = ''Ben'',
           last_name = [], username = ''benfwalla'', books_shelved = ''1234'',
           number_of_friends = ''56'', books_read = ''1100'',
           currently_reading_count = [], to_read_count = [] \<rparr>"
  by code_simp

lemma split_on_not_Nil: "split_on sep s \<noteq> []"
  by (induction s) (auto split: list.split)

lemma py_index_last: "xs \<noteq> [] \<Longrightarrow> py_index xs (- 1) = Inr (last xs)"
proof -
  assume ne: "xs \<noteq> []"
  then have len: "0 < length xs"
    by simp
  then have "nat (int (length xs) + - 1) = length xs - 1"
    by simp
  then show ?thesis
    using ne len unfolding py_index_def by (simp add: last_conv_nth Suc_leI)
qed

lemma py_index_first: "xs \<noteq> [] \<Longrightarrow> py_index xs 0 = Inr (hd xs)"
  by (cases xs) (simp_all add: py_index_def)

lemma tag_attr_cases:
  "tag_attr tag key = Inl TypeError \<and> has_attr tag key \<or>
   tag_attr tag key = Inl (KeyError key) \<and> \<not> has_attr tag key \<or>
   (\<exists>v. tag_attr tag key = Inr v) \<and> has_attr tag key"
  by (auto simp: tag_attr_def has_attr_def split: option.splits)

lemma attr_field:
  "(has_attr tag key \<longrightarrow> (\<exists>v. try_except (tag_attr tag key) TypeError_class [] = Inr v)) \<and>
   (\<not> has_attr tag key \<longrightarrow> try_except (tag_attr tag key) TypeError_class [] = Inl (KeyError key))"
  using tag_attr_cases [of tag key]
  by (auto simp: try_except_def)

lemma user_id_field:
  "(has_attr tag ''href'' \<longrightarrow>
      (\<exists>v. try_except
        (bind_err (tag_attr tag ''href'') (\<lambda>canonical_link.
         bind_err (py_index (split_on CHR ''/'' canonical_link) (- 1)) (\<lambda>seg.
         py_index (split_on CHR ''-'' seg) 0)))
        TypeError_class [] = Inr v)) \<and>
   (\<not> has_attr tag ''href'' \<longrightarrow>
      try_except
        (bind_err (tag_attr tag ''href'') (\<lambda>canonical_link.
         bind_err (py_index (split_on CHR ''/'' canonical_link) (- 1)) (\<lambda>seg.
         py_index (split_on CHR ''-'' seg) 0)))
        TypeError_class [] = Inl (KeyError ''href''))"
  using tag_attr_cases [of tag "''href''"]
  by (auto simp: try_except_def bind_err_def py_index_last py_index_first split_on_not_Nil)

lemma group1_cases: "group1 r s = Inl AttributeError \<or> (\<exists>g. group1 r s = Inr g)"
  by (auto simp: group1_def bind_err_def attr_of_none_def split: option.splits)

lemma count_field:
  "\<exists>v. try_except (bind_err (group1 r s) (\<lambda>g. Inr (h g))) AttributeError_class [] = Inr v"
  using group1_cases [of r s] by (auto simp: try_except_def bind_err_def)

lemma friends_field: "\<exists>v. try_except (group1 r s) AttributeError_class [] = Inr v"
  using group1_cases [of r s] by (auto simp: try_except_def)

lemma shelved_field:
  "\<exists>v. try_except
     (bind_err (attr_of_none tt) (\<lambda>title'.
      bind_err (group1 r title') (\<lambda>g. Inr (h g))))
     AttributeError_class [] = Inr v"
proof (cases tt)
  case None
  then show ?thesis by (simp add: try_except_def bind_err_def attr_of_none_def)
next
  case (Some t)
  then show ?thesis
    using group1_cases [of r t] by (auto simp: try_except_def bind_err_def attr_of_none_def)
qed

text \<open>
  The profile scraper in full. It returns a record exactly when every element it finds
  carries the attribute it reads (\<open>href\<close> for the canonical link, \<open>content\<close> for the four
  \<open>meta\<close> elements); a missing element, a missing title and a pattern that does not match
  never make it raise. Otherwise it raises \<open>KeyError\<close> for \<open>href\<close> or \<open>content\<close>, and never
  any other exception.
\<close>

theorem get_user_info_returns_iff:
  "((\<exists>info. get_user_info page = Inr info) \<longleftrightarrow>
      has_attr (link_canonical page) ''href'' \<and> has_attr (meta_og_title page) ''content'' \<and>
      has_attr (meta_first_name page) ''content'' \<and> has_attr (meta_last_name page) ''content'' \<and>
      has_attr (meta_username page) ''content'') \<and>
   (\<forall>e. get_user_info page = Inl e \<longrightarrow> e = KeyError ''href'' \<or> e = KeyError ''content'')"
proof -
  obtain v2 v3 v4 v5 v10 where
    f2: "try_except
        (bind_err (attr_of_none (title_tag page)) (\<lambda>title'.
         bind_err (group1 books_shelved_re title') (\<lambda>g. Inr (replace_all '','' [] g))))
        AttributeError_class [] = Inr v2"
    and f3: "try_except
        (bind_err (group1 books_read_re (soup_text page)) (\<lambda>g. Inr (replace_all '','' [] g)))
        AttributeError_class [] = Inr v3"
    and f4: "try_except
        (bind_err (group1 (shelf_count_re ''currently-reading'') (soup_text page))
           (\<lambda>g. Inr (replace_all '','' [] g)))
        AttributeError_class [] = Inr v4"
    and f5: "try_except
        (bind_err (group1 (shelf_count_re ''to-read'') (soup_text page))
           (\<lambda>g. Inr (replace_all '','' [] g)))
        AttributeError_class [] = Inr v5"
    and f10: "try_except (group1 friends_re (soup_text page)) AttributeError_class [] = Inr v10"
    using shelved_field count_field friends_field by metis
  note f1 = user_id_field [of "link_canonical page"]
  note f6 = attr_field [of "meta_og_title page" "''content''"]
  note f7 = attr_field [of "meta_first_name page" "''content''"]
  note f8 = attr_field [of "meta_last_name page" "''content''"]
  note f9 = attr_field [of "meta_username page" "''content''"]
  show ?thesis
    unfolding get_user_info_def f2 f3 f4 f5 f10
    using f1 f6 f7 f8 f9
    by (cases "has_attr (link_canonical page) ''href''";
        cases "has_attr (meta_og_title page) ''content''";
        cases "has_attr (meta_first_name page) ''content''";
        cases "has_attr (meta_last_name page) ''content''";
        cases "has_attr (meta_username page) ''content''")
       (auto simp: bind_err_def)
qed

theorem get_user_info_returns_iff_witness:
  "has_attr (link_canonical sample_profile) ''href'' \<and>
   has_attr (meta_og_title sample_profile) ''content'' \<and>
   has_attr (meta_first_name sample_profile) ''content'' \<and>
   has_attr (meta_last_name sample_profile) ''content'' \<and>
   has_attr (meta_username sample_profile) ''content'' \<and>
   (\<exists>info. get_user_info sample_profile = Inr info) \<and>
   \<not> has_attr (link_canonical link_without_href) ''href'' \<and>
   (\<nexists>info. get_user_info link_without_href = Inr info)"
proof -
  have a: "has_attr (link_canonical sample_profile) ''href''"
    "has_attr (meta_og_title sample_profile) ''content''"
    "has_attr (meta_first_name sample_profile) ''content''"
    "has_attr (meta_last_name sample_profile) ''content''"
    "has_attr (meta_username sample_profile) ''content''"
    by (simp_all add: sample_profile_def has_attr_def)
  have b: "\<not> has_attr (link_canonical link_without_href) ''href''"
    by (simp add: link_without_href_def has_attr_def)
  show ?thesis
    using get_user_info_returns_iff [of sample_profile]
          get_user_info_returns_iff [of link_without_href] a b
    by blast
qed

section \<open>The parser on a sample row\<close>

lemmas eval_text = strip_def starts_with_def is_space_def is_digit_def nat_of_digits_def
  digit_val_def to_numeric_def str_extract_def re_search_def Plus_def Opt_def Rep_def Lit_def
  ms_Star

lemma hobbit_title: "clean_title (fst (title_cell hobbit_row)) = ''The Hobbit''"
  by (simp add: hobbit_row_def clean_title_def eval_text)

lemma hobbit_author: "clean_author (fst (author_cell hobbit_row)) = ''Tolkien, J.R.R.''"
  by (simp add: hobbit_row_def clean_author_def eval_text)

lemma hobbit_pages: "parse_pages (fst (pages_cell hobbit_row)) = Some 366"
  by (simp add: hobbit_row_def parse_pages_def digits_re_def eval_text)

lemma hobbit_ratings: "parse_total_ratings (fst (ratings_cell hobbit_row)) = Some 3864263"
  by (simp add: hobbit_row_def parse_total_ratings_def digits_re_def replace_all.simps eval_text)

lemma hobbit_pub: "parse_pub (fst (pub_cell hobbit_row)) = Some 1937"
  by (simp add: hobbit_row_def parse_pub_def pub_re_def eval_text word_before_def word_after_def
        is_word_def numeral_2_eq_2 numeral_3_eq_3 eval_nat_numeral)

lemma hobbit_avg: "parse_avg_rating (fst (rating_cell hobbit_row)) = Some (429 / 100)"
  by (simp add: hobbit_row_def parse_avg_rating_def decimal_re_def to_numeric_decimal_def
        eval_text Let_def)

lemma hobbit_user_rating: "parse_user_rating (fst (rating_1_cell hobbit_row)) = Some 5"
  by (simp add: hobbit_row_def parse_user_rating_def rating_re_def rating_mapping_def eval_text)

lemma hobbit_read_flag: "parse_read_flag (fst (votes_cell hobbit_row))"
  by (simp add: hobbit_row_def parse_read_flag_def digits_re_def eval_text)

lemma hobbit_date_read:
  "format_and_convert_date sample_dates (date_re ''date read'') (fst (started_cell hobbit_row)) =
     Some (2020, 3, 1)"
proof -
  have "py_split ''Mar 2020'' = [''Mar'', ''2020'']"
    by code_simp
  then show ?thesis
    by (simp add: hobbit_row_def format_and_convert_date_def date_re_def insert_default_day_def
          sample_dates_def eval_text)
qed

lemma hobbit_date_added:
  "format_and_convert_date sample_dates (date_re ''date added'') (fst (read_cell hobbit_row)) =
     Some (2020, 3, 15)"
proof -
  have "py_split ''Mar 15, 2020'' = [''Mar'', ''15,'', ''2020'']"
    by code_simp
  then show ?thesis
    by (simp add: hobbit_row_def format_and_convert_date_def date_re_def insert_default_day_def
          sample_dates_def eval_text)
qed

lemma hobbit_id: "extract_goodreads_id (snd (title_cell hobbit_row)) = Some ''5907''"
  by (simp add: hobbit_row_def extract_goodreads_id_def digits_re_def eval_text)

lemma parse_row_hobbit:
  "parse_row sample_dates hobbit_row =
     \<lparr> title = ''The Hobbit'', author = ''Tolkien, J.R.R.'', pages = Some 366,
       avg_goodreads_rating = Some (429 / 100), total_goodreads_ratings = Some 3864263,
       pub = Some 1937, user_rating = Some 5, read_flag = True,
       date_read = Some (2020, 3, 1), date_added = Some (2020, 3, 15),
       goodreads_id = Some ''5907'' \<rparr>"
  unfolding parse_row_def
  by (simp only: hobbit_title hobbit_author hobbit_pages hobbit_ratings hobbit_pub hobbit_avg
        hobbit_user_rating hobbit_read_flag hobbit_date_read hobbit_date_added hobbit_id)

section \<open>Properties of the authentication check\<close>

text \<open>
  C9. For every supplied header value, \<open>get_api_key\<close> returns the supplied key when it
  equals the configured secret, and otherwise raises the unauthorized (401) error carrying
  the fixed message "401: Invalid API Key"; there is no third outcome.
\<close>

theorem get_api_key_outcomes:
  "(Some h = secret \<longrightarrow> get_api_key secret h = Inr h) \<and>
   (Some h \<noteq> secret \<longrightarrow>
      get_api_key secret h = Inl (HTTPException 401 ''401: Invalid API Key'')) \<and>
   (get_api_key secret h = Inr h \<or>
      get_api_key secret h = Inl (HTTPException 401 ''401: Invalid API Key''))"
  by (simp add: get_api_key_def HTTP_401_UNAUTHORIZED_def)

theorem get_api_key_outcomes_witness:
  "get_api_key (Some ''s3cret'') ''s3cret'' = Inr ''s3cret'' \<and>
   get_api_key (Some ''s3cret'') ''guess'' = Inl (HTTPException 401 ''401: Invalid API Key'')"
  using get_api_key_outcomes [of "''s3cret''" "Some ''s3cret''"]
        get_api_key_outcomes [of "''guess''" "Some ''s3cret''"]
  by simp

text \<open>
  C10. When the environment variable is unset, the configured secret is \<open>None\<close>, and
  \<open>get_api_key\<close> raises the unauthorized error for every header string: no key is
  accepted, the empty key included.
\<close>

theorem get_api_key_unset_rejects_all:
  "get_api_key None h = Inl (HTTPException 401 ''401: Invalid API Key'')"
  by (simp add: get_api_key_def HTTP_401_UNAUTHORIZED_def)

end
